theory Spec2Isabelle
  imports Main "HOL-Library.Sublist"
begin

section \<open>Text primitives\<close>

text \<open>
  Python strings are modelled as lists of 8-bit characters: the strings whose code points
  lie below 256. The character classes below are those of Python 3 on that range
  (\<^verbatim>\<open>str.isspace\<close>, which \<^verbatim>\<open>str.split\<close>, \<^verbatim>\<open>str.strip\<close> and the
  regular-expression class \<^verbatim>\<open>\s\<close> share; \<^verbatim>\<open>\w\<close>, which decides \<^verbatim>\<open>\b\<close>;
  \<^verbatim>\<open>str.lower\<close>).
\<close>

definition py_isspace :: "char \<Rightarrow> bool" where
  "py_isspace c = (let n = (of_char c :: nat) in
     (9 \<le> n \<and> n \<le> 13) \<or> (28 \<le> n \<and> n \<le> 32) \<or> n = 133 \<or> n = 160)"

definition is_word_char :: "char \<Rightarrow> bool" where
  "is_word_char c = (let n = (of_char c :: nat) in
     (48 \<le> n \<and> n \<le> 57) \<or> (65 \<le> n \<and> n \<le> 90) \<or> n = 95 \<or> (97 \<le> n \<and> n \<le> 122)
     \<or> n = 170 \<or> n = 178 \<or> n = 179 \<or> n = 181 \<or> n = 185 \<or> n = 186
     \<or> (188 \<le> n \<and> n \<le> 190) \<or> (192 \<le> n \<and> n \<le> 214) \<or> (216 \<le> n \<and> n \<le> 246)
     \<or> 248 \<le> n)"

definition is_upper_AZ :: "char \<Rightarrow> bool" where
  "is_upper_AZ c = (let n = (of_char c :: nat) in 65 \<le> n \<and> n \<le> 90)"

definition is_lower_az :: "char \<Rightarrow> bool" where
  "is_lower_az c = (let n = (of_char c :: nat) in 97 \<le> n \<and> n \<le> 122)"

definition py_lower_char :: "char \<Rightarrow> char" where
  "py_lower_char c = (let n = (of_char c :: nat) in
     if (65 \<le> n \<and> n \<le> 90) \<or> (192 \<le> n \<and> n \<le> 214) \<or> (216 \<le> n \<and> n \<le> 222)
     then char_of (n + 32) else c)"

definition py_lower :: "string \<Rightarrow> string" where
  "py_lower s = map py_lower_char s"

text \<open>\<^verbatim>\<open>s.strip()\<close>: whitespace removed at both ends.\<close>

definition py_strip :: "string \<Rightarrow> string" where
  "py_strip s = rev (dropWhile py_isspace (rev (dropWhile py_isspace s)))"

text \<open>\<^verbatim>\<open>s.split()\<close>: the maximal runs of non-whitespace characters, in order.\<close>

fun split_aux :: "string \<Rightarrow> string \<Rightarrow> string list" where
  "split_aux cur [] = (if cur = [] then [] else [cur])"
| "split_aux cur (c # cs) =
     (if py_isspace c then (if cur = [] then split_aux [] cs else cur # split_aux [] cs)
      else split_aux (cur @ [c]) cs)"

definition py_split :: "string \<Rightarrow> string list" where
  "py_split s = split_aux [] s"

text \<open>\<^verbatim>\<open>s.startswith(p)\<close> and the substring test \<^verbatim>\<open>sub in s\<close>.\<close>

fun startswith :: "string \<Rightarrow> string \<Rightarrow> bool" where
  "startswith s [] = True"
| "startswith [] (p # ps) = False"
| "startswith (c # cs) (p # ps) = (c = p \<and> startswith cs ps)"

fun py_in :: "string \<Rightarrow> string \<Rightarrow> bool" where
  "py_in sub [] = (sub = [])"
| "py_in sub (c # cs) = (startswith (c # cs) sub \<or> py_in sub cs)"

text \<open>
  The slice \<^verbatim>\<open>xs[:n]\<close> for a Python integer \<open>n\<close>: a negative bound counts from the
  end of the list.
\<close>

definition py_slice_to :: "'a list \<Rightarrow> int \<Rightarrow> 'a list" where
  "py_slice_to xs n = (if 0 \<le> n then take (nat n) xs else take (length xs - nat (- n)) xs)"

text \<open>
  \<^verbatim>\<open>xs.sort(key=k, reverse=True)\<close>: Python's sort is stable, and with
  \<^verbatim>\<open>reverse=True\<close> it orders by descending key while elements with equal keys keep
  their original order. The stable insertion sort on the negated key has the same result.
\<close>

definition py_sort_reverse :: "('a \<Rightarrow> int) \<Rightarrow> 'a list \<Rightarrow> 'a list" where
  "py_sort_reverse k xs = sort_key (\<lambda>x. - k x) xs"

section \<open>Evidence ranking\<close>

text \<open>
  A search result is the dictionary built by \<^verbatim>\<open>SearchService.search\<close>, which always
  carries the four keys \<^verbatim>\<open>title\<close>, \<^verbatim>\<open>url\<close>, \<^verbatim>\<open>snippet\<close> and \<^verbatim>\<open>age\<close>.
\<close>

record evidence =
  ev_title :: string
  ev_url :: string
  ev_snippet :: string
  ev_age :: string

definition MAX_SEARCH_QUERIES :: nat where "MAX_SEARCH_QUERIES = 8"
definition RESULTS_PER_QUERY :: nat where "RESULTS_PER_QUERY = 3"
definition MAX_FILTERED_RESULTS :: int where "MAX_FILTERED_RESULTS = 5"
definition MIN_SNIPPET_LENGTH :: nat where "MIN_SNIPPET_LENGTH = 50"
definition MIN_URL_LENGTH :: nat where "MIN_URL_LENGTH = 5"
definition MIN_WORD_LENGTH_FOR_MATCHING :: nat where "MIN_WORD_LENGTH_FOR_MATCHING = 3"
definition MIN_RELEVANCE_SCORE :: nat where "MIN_RELEVANCE_SCORE = 2"
definition AUTO_MAP_FALLBACK_SOURCES :: nat where "AUTO_MAP_FALLBACK_SOURCES = 2"

text \<open>
  \<^verbatim>\<open>sum(1 for word in claim_words if len(word) > MIN_WORD_LENGTH_FOR_MATCHING and word in text)\<close>;
  \<open>claim_words\<close> is a set in the source, here a list without duplicates.
\<close>

definition matching_words :: "string list \<Rightarrow> string \<Rightarrow> nat" where
  "matching_words claim_words text =
     length (filter (\<lambda>word. length word > MIN_WORD_LENGTH_FOR_MATCHING \<and> py_in word text) claim_words)"

text \<open>The score computed in the loop body of \<^verbatim>\<open>_filter_search_results\<close>.\<close>

definition relevance_score :: "string list \<Rightarrow> evidence \<Rightarrow> nat" where
  "relevance_score claim_words result =
     (let snippet = ev_snippet result;
          title = ev_title result;
          snippet_len = length snippet;
          score0 = (if snippet_len \<ge> 100 then 2 else if snippet_len \<ge> 50 then 1 else 0);
          snippet_lower = py_lower snippet;
          title_lower = py_lower title;
          matching = matching_words claim_words snippet_lower;
          score1 = (if matching > 0 then score0 + matching * 2 else score0);
          title_matches = matching_words claim_words title_lower;
          score2 = (if title_matches > 0 then score1 + title_matches * 3 else score1)
      in score2)"

text \<open>
  The filtering loop. Each accepted result is paired with its score, as the source stores
  it under the scratch key \<^verbatim>\<open>_relevance_score\<close>; the three skip counters of the source
  only feed a log line.
\<close>

fun filter_loop :: "string list \<Rightarrow> evidence list \<Rightarrow> (evidence \<times> nat) list" where
  "filter_loop claim_words [] = []"
| "filter_loop claim_words (result # results) =
     (if length (py_strip (ev_snippet result)) < MIN_SNIPPET_LENGTH
        then filter_loop claim_words results
      else if ev_url result = [] \<or> length (py_strip (ev_url result)) < MIN_URL_LENGTH
        then filter_loop claim_words results
      else let score = relevance_score claim_words result in
        if score = 0 then filter_loop claim_words results
        else (result, score) # filter_loop claim_words results)"

definition claim_words_of :: "string \<Rightarrow> string list" where
  "claim_words_of claim = remdups (py_split (py_lower claim))"

definition filter_search_results :: "evidence list \<Rightarrow> string \<Rightarrow> int \<Rightarrow> evidence list" where
  "filter_search_results results claim max_results =
     (if results = [] then []
      else let claim_words = claim_words_of claim;
               filtered = filter_loop claim_words results;
               sorted = py_sort_reverse (\<lambda>x. int (snd x)) filtered
           in py_slice_to (map fst sorted) max_results)"

section \<open>Query expansion\<close>

text \<open>
  \<^verbatim>\<open>re.findall(r'\b[A-Z][a-z]+(?:\s+[A-Z][a-z]+)*\b', claim)\<close>. One capitalised
  word is \<^verbatim>\<open>[A-Z][a-z]+\<close>, the lowercase run taken greedily.
\<close>

definition cap_word :: "string \<Rightarrow> (string \<times> string) option" where
  "cap_word s =
     (case s of
        [] \<Rightarrow> None
      | c # cs \<Rightarrow>
          if is_upper_AZ c
          then (let ls = takeWhile is_lower_az cs; rest = dropWhile is_lower_az cs
                in if ls = [] then None else Some (c # ls, rest))
          else None)"

text \<open>One round of the group \<^verbatim>\<open>(?:\s+[A-Z][a-z]+)\<close>.\<close>

definition next_group :: "string \<Rightarrow> (string \<times> string) option" where
  "next_group r =
     (let ws = takeWhile py_isspace r; r1 = dropWhile py_isspace r
      in if ws = [] then None
         else (case cap_word r1 of None \<Rightarrow> None | Some (w, r2) \<Rightarrow> Some (ws @ w, r2)))"

text \<open>The closing \<^verbatim>\<open>\b\<close>, after a letter: the text ends or a non-word character follows.\<close>

definition boundary_end :: "string \<Rightarrow> bool" where
  "boundary_end r = (case r of [] \<Rightarrow> True | c # _ \<Rightarrow> \<not> is_word_char c)"

text \<open>
  The starred group followed by \<^verbatim>\<open>\b\<close>, with the backtracking of the matcher: one
  more round is tried first, and the match stops here when the rest cannot be completed.
\<close>

function greedy_groups :: "string \<Rightarrow> string \<Rightarrow> (string \<times> string) option" where
  "greedy_groups m r =
     (case next_group r of
        Some (g, r') \<Rightarrow>
          (case greedy_groups (m @ g) r' of
             Some res \<Rightarrow> Some res
           | None \<Rightarrow> if boundary_end r then Some (m, r) else None)
      | None \<Rightarrow> if boundary_end r then Some (m, r) else None)"
  by pat_completeness auto
termination
proof (relation "measure (\<lambda>(m, r). length r)")
  show "wf (measure (\<lambda>(m, r). length r))" by simp
next
  fix m r :: string and x2 :: "string \<times> string" and g r' :: string
  assume ng: "next_group r = Some x2" and eq: "(g, r') = x2"
  have "length r' < length r"
  proof -
    let ?r1 = "dropWhile py_isspace r"
    from ng eq have ws: "takeWhile py_isspace r \<noteq> []"
      and cw: "cap_word ?r1 = Some (drop (length (takeWhile py_isspace r)) g, r')"
      by (auto simp: next_group_def Let_def split: if_splits option.splits)
    from cw obtain c cs where r1: "?r1 = c # cs" and r': "r' = dropWhile is_lower_az cs"
      by (auto simp: cap_word_def Let_def split: list.splits if_splits)
    have "length r' \<le> length cs" unfolding r' by (rule length_dropWhile_le)
    also have "\<dots> < length ?r1" by (simp add: r1)
    also have "\<dots> \<le> length r" by (rule length_dropWhile_le)
    finally show ?thesis .
  qed
  then show "((m @ g, r'), (m, r)) \<in> measure (\<lambda>(m, r). length r)" by simp
qed

declare greedy_groups.simps [simp del]

definition match_name :: "string \<Rightarrow> (string \<times> string) option" where
  "match_name s = (case cap_word s of None \<Rightarrow> None | Some (w, r) \<Rightarrow> greedy_groups w r)"

text \<open>
  The scan of \<^verbatim>\<open>findall\<close>, from left to right: \<open>prev\<close> says that the character before
  the current position is a word character (the opening \<^verbatim>\<open>\b\<close> needs it not to be);
  \<open>skip\<close> counts the characters of the last match still to be passed over.
\<close>

fun findall_proper_nouns :: "bool \<Rightarrow> nat \<Rightarrow> string \<Rightarrow> string list" where
  "findall_proper_nouns prev skip [] = []"
| "findall_proper_nouns prev (Suc k) (c # cs) = findall_proper_nouns (is_word_char c) k cs"
| "findall_proper_nouns prev 0 (c # cs) =
     (if \<not> prev \<and> is_upper_AZ c
      then (case match_name (c # cs) of
              Some (m, rest) \<Rightarrow> m # findall_proper_nouns True (length m - 1) cs
            | None \<Rightarrow> findall_proper_nouns (is_word_char c) 0 cs)
      else findall_proper_nouns (is_word_char c) 0 cs)"

definition proper_nouns_of :: "string \<Rightarrow> string list" where
  "proper_nouns_of claim = findall_proper_nouns False 0 claim"

text \<open>\<^verbatim>\<open>re.findall(r'\b(2024|2025|2026)\b', claim)\<close>: the list of the years matched.\<close>

definition year_at :: "string \<Rightarrow> string option" where
  "year_at s =
     (let y = take 4 s
      in if (y = ''2024'' \<or> y = ''2025'' \<or> y = ''2026'') \<and> boundary_end (drop 4 s)
         then Some y else None)"

fun findall_years :: "bool \<Rightarrow> nat \<Rightarrow> string \<Rightarrow> string list" where
  "findall_years prev skip [] = []"
| "findall_years prev (Suc k) (c # cs) = findall_years (is_word_char c) k cs"
| "findall_years prev 0 (c # cs) =
     (if \<not> prev
      then (case year_at (c # cs) of
              Some y \<Rightarrow> y # findall_years True 3 cs
            | None \<Rightarrow> findall_years (is_word_char c) 0 cs)
      else findall_years (is_word_char c) 0 cs)"

text \<open>The queries one proper noun contributes (the body of the loop over the names).\<close>

definition name_queries :: "string \<Rightarrow> string \<Rightarrow> string \<Rightarrow> string list" where
  "name_queries claim_lower language name =
     (if length name > 3 then
        [name] @
        (if language = ''de'' then
           (if py_in ''bundeskanzler'' claim_lower \<or> py_in ''kanzler'' claim_lower
            then [name @ '' Bundeskanzler Deutschland'', ''Bundeskanzler Deutschland aktuell'']
            else []) @
           (if py_in ''buch'' claim_lower \<or> py_in ''autobiografie'' claim_lower
               \<or> py_in ''biografie'' claim_lower
            then [name @ '' Buch Autobiografie'', name @ '' Buch 2024 2025'']
            else []) @
           (if py_in ''merkel'' (py_lower name)
            then [''Angela Merkel Autobiografie Freiheit'']
            else [])
         else
           (if py_in ''chancellor'' claim_lower
            then [name @ '' Chancellor Germany'', ''Germany Chancellor current'']
            else []) @
           (if py_in ''book'' claim_lower \<or> py_in ''autobiography'' claim_lower
               \<or> py_in ''biography'' claim_lower
            then [name @ '' book autobiography'']
            else []))
      else [])"

definition merz_queries :: "string \<Rightarrow> string \<Rightarrow> string list" where
  "merz_queries claim_lower language =
     (if language = ''de''
      then (if py_in ''merz'' claim_lower
            then [''Friedrich Merz Bundeskanzler'', ''Deutschland Bundeskanzler 2025''] else [])
      else (if py_in ''merz'' claim_lower
            then [''Friedrich Merz Chancellor'', ''Germany Chancellor 2025''] else []))"

definition date_queries :: "string \<Rightarrow> string \<Rightarrow> string list" where
  "date_queries claim language =
     map (\<lambda>date. if language = ''de'' then ''Deutschland Politik '' @ date
                  else ''Germany politics '' @ date)
         (findall_years False 0 claim)"

text \<open>The final loop: first occurrences only, and only queries longer than 2 characters.\<close>

fun unique_loop :: "string list \<Rightarrow> string list \<Rightarrow> string list" where
  "unique_loop seen [] = []"
| "unique_loop seen (q # qs) =
     (if q \<notin> set seen \<and> length q > 2 then q # unique_loop (q # seen) qs
      else unique_loop seen qs)"

definition candidate_queries :: "string \<Rightarrow> string \<Rightarrow> string list" where
  "candidate_queries claim language =
     (let claim_lower = py_lower claim
      in concat (map (name_queries claim_lower language) (proper_nouns_of claim))
         @ merz_queries claim_lower language
         @ date_queries claim language)"

definition extract_all_search_queries :: "string \<Rightarrow> string \<Rightarrow> string list" where
  "extract_all_search_queries claim language = unique_loop [] (candidate_queries claim language)"

text \<open>
  The query list of \<^verbatim>\<open>_perform_web_searches\<close>: the expansion with the claim inserted
  at position 0, and the part of it that is executed.
\<close>

definition search_queries :: "string \<Rightarrow> string \<Rightarrow> string list" where
  "search_queries claim language = claim # extract_all_search_queries claim language"

definition executed_queries :: "string \<Rightarrow> string \<Rightarrow> string list" where
  "executed_queries claim language = take MAX_SEARCH_QUERIES (search_queries claim language)"

section \<open>Evidence gathering\<close>

text \<open>
  The search provider is a parameter: \<open>search i query count language\<close> is the list of
  results that the \<open>i\<close>-th call of the verification (counted from 1, as the loop does)
  returns. \<^verbatim>\<open>SearchService.search\<close> absorbs every failure and returns the empty list
  then, so the call has no error branch.
\<close>

type_synonym search_fn = "nat \<Rightarrow> string \<Rightarrow> nat \<Rightarrow> string \<Rightarrow> evidence list"

fun search_loop :: "search_fn \<Rightarrow> string \<Rightarrow> nat \<Rightarrow> string list \<Rightarrow> evidence list" where
  "search_loop search language i [] = []"
| "search_loop search language i (query # queries) =
     search i query RESULTS_PER_QUERY language @ search_loop search language (Suc i) queries"

text \<open>Deduplication by URL, first occurrence kept.\<close>

fun dedup_by_url :: "string list \<Rightarrow> evidence list \<Rightarrow> evidence list" where
  "dedup_by_url seen_urls [] = []"
| "dedup_by_url seen_urls (result # results) =
     (if ev_url result \<notin> set seen_urls
      then result # dedup_by_url (ev_url result # seen_urls) results
      else dedup_by_url seen_urls results)"

text \<open>The state of the service object that the verification reads and writes.\<close>

record service =
  enabled :: bool
  web_search_enabled :: bool
  current_search_results :: "evidence list"

definition perform_web_searches :: "search_fn \<Rightarrow> service \<Rightarrow> string \<Rightarrow> string \<Rightarrow> evidence list" where
  "perform_web_searches search self claim language =
     (if \<not> web_search_enabled self then []
      else let all_search_results = search_loop search language 1 (executed_queries claim language);
               unique_results = dedup_by_url [] all_search_results
           in filter_search_results unique_results claim MAX_FILTERED_RESULTS)"

section \<open>Context building\<close>

text \<open>\<^verbatim>\<open>str(i)\<close> for a natural number.\<close>

fun str_of_nat :: "nat \<Rightarrow> string" where
  "str_of_nat n =
     (if n < 10 then [char_of (48 + n)]
      else str_of_nat (n div 10) @ [char_of (48 + n mod 10)])"

text \<open>
  \<^verbatim>\<open>_sanitize_text\<close>: the guillemets become the plain double quote (the three other
  replacements of the source put a double quote for a double quote).
\<close>

definition sanitize_text :: "string \<Rightarrow> string" where
  "sanitize_text text = map (\<lambda>c. if c = CHR 0xBB \<or> c = CHR 0xAB then CHR 0x22 else c) text"

definition newline :: string where
  "newline = [CHR 0x0A]"

fun join :: "string \<Rightarrow> string list \<Rightarrow> string" where
  "join sep [] = []"
| "join sep [x] = x"
| "join sep (x # y # ys) = x @ sep @ join sep (y # ys)"

fun format_results :: "nat \<Rightarrow> evidence list \<Rightarrow> string list" where
  "format_results i [] = []"
| "format_results i (result # results) =
     (''[SOURCE '' @ str_of_nat i @ ''] Title: '' @ sanitize_text (ev_title result) @ newline
        @ ''URL: '' @ ev_url result @ newline
        @ ''Snippet: '' @ sanitize_text (ev_snippet result))
     # format_results (Suc i) results"

text \<open>
  \<^verbatim>\<open>_build_search_context\<close> returns the prompt fragment and sets the evidence buffer
  of the service: to the evidence when there is some, to the empty list otherwise.
\<close>

definition build_search_context :: "service \<Rightarrow> evidence list \<Rightarrow> string \<Rightarrow> string \<times> service" where
  "build_search_context self search_results language =
     (if search_results \<noteq> [] then
        (newline @ newline @ ''=== WEB SEARCH RESULTS ==='' @ newline
           @ join (newline @ newline) (format_results 1 search_results)
           @ (if language = ''de''
              then newline @ newline
                @ ''[OK] Die obigen Web-Suchergebnisse sind deine EINZIGE Informationsquelle.''
              else newline @ newline
                @ ''[OK] The above web search results are your ONLY source of information.''),
         self\<lparr>current_search_results := search_results\<rparr>)
      else
        ((if language = ''de''
          then newline @ newline @ ''[NONE] KEINE WEB-SUCHERGEBNISSE GEFUNDEN'' @ newline @ newline
            @ ''Keine Informationen verfuegbar. Fuer ueberpruefbare Fakten bedeutet dies wahrscheinlich: FALSCH.''
          else newline @ newline @ ''[NONE] NO WEB SEARCH RESULTS FOUND'' @ newline @ newline
            @ ''No information available. For verifiable facts, this likely means: FALSE.''),
         self\<lparr>current_search_results := []\<rparr>))"

section \<open>Decoded responses\<close>

text \<open>
  The values that \<^verbatim>\<open>json.loads\<close> returns. An object keeps its members in the order
  of the text; a lookup takes the last member with the key, as the dictionary built from
  the pairs does. \<open>JFloat m e\<close> stands for the float read from a literal of decimal value
  \<open>m * 10^e\<close>.
\<close>

datatype json =
    JNull
  | JBool bool
  | JInt int
  | JFloat int int
  | JNaN
  | JInfinity bool
  | JString string
  | JArray "json list"
  | JObject "(string \<times> json) list"

text \<open>\<^verbatim>\<open>d.get(key, default)\<close> on a decoded object.\<close>

definition py_get :: "(string \<times> json) list \<Rightarrow> string \<Rightarrow> json \<Rightarrow> json" where
  "py_get d key dflt = (case map_of (rev d) key of Some v \<Rightarrow> v | None \<Rightarrow> dflt)"

text \<open>
  Truth value of a decoded value. A float literal is false when it reads as zero: its
  decimal value is 0, or at most \<open>2^-1075\<close> in magnitude (half the least positive double,
  which rounds to zero).
\<close>

definition py_truthy :: "json \<Rightarrow> bool" where
  "py_truthy v =
     (case v of
        JNull \<Rightarrow> False
      | JBool b \<Rightarrow> b
      | JInt n \<Rightarrow> n \<noteq> 0
      | JFloat m e \<Rightarrow> (if 0 \<le> e then m \<noteq> 0 else \<bar>m\<bar> * 2 ^ 1075 > 10 ^ nat (- e))
      | JNaN \<Rightarrow> True
      | JInfinity _ \<Rightarrow> True
      | JString s \<Rightarrow> s \<noteq> []
      | JArray xs \<Rightarrow> xs \<noteq> []
      | JObject d \<Rightarrow> d \<noteq> [])"

text \<open>
  The exceptions the model distinguishes; \<open>OtherError\<close> stands for every exception that
  is none of the others.
\<close>

datatype py_error =
  JSONDecodeError | ValueError | AttributeError | ApiError | PromptError | OtherError

section \<open>Source reconciliation\<close>

record source =
  src_title :: json
  src_url :: json
  src_snippet :: json

definition source_of_result :: "evidence \<Rightarrow> source" where
  "source_of_result result =
     \<lparr>src_title = JString (ev_title result),
      src_url = JString (ev_url result),
      src_snippet = JString (take 200 (ev_snippet result))\<rparr>"

definition justification_words_of :: "string \<Rightarrow> string list" where
  "justification_words_of justification =
     remdups (filter (\<lambda>word. length word > 4) (py_split (py_lower justification)))"

definition relevance :: "string list \<Rightarrow> evidence \<Rightarrow> nat" where
  "relevance justification_words result =
     (let snippet_lower = py_lower (ev_snippet result);
          title_lower = py_lower (ev_title result)
      in length (filter (\<lambda>word. py_in word snippet_lower \<or> py_in word title_lower)
                   justification_words))"

fun map_loop :: "string list \<Rightarrow> evidence list \<Rightarrow> source list" where
  "map_loop justification_words [] = []"
| "map_loop justification_words (result # results) =
     (if relevance justification_words result \<ge> MIN_RELEVANCE_SCORE
      then source_of_result result # map_loop justification_words results
      else map_loop justification_words results)"

text \<open>
  \<^verbatim>\<open>_auto_map_sources_from_results\<close>, on the evidence buffer. The justification is the
  decoded value of the response; \<^verbatim>\<open>justification.lower()\<close> raises on anything but a
  string.
\<close>

definition auto_map_sources_from_results :: "evidence list \<Rightarrow> json \<Rightarrow> py_error + source list" where
  "auto_map_sources_from_results current justification =
     (if current = [] then Inr []
      else (case justification of
              JString j \<Rightarrow>
                (let justification_words = justification_words_of j;
                     mapped_sources = map_loop justification_words current
                 in if mapped_sources = [] \<and> current \<noteq> []
                    then Inr (mapped_sources
                              @ map source_of_result (take AUTO_MAP_FALLBACK_SOURCES current))
                    else Inr mapped_sources)
            | _ \<Rightarrow> Inl AttributeError))"

section \<open>Verdict parsing\<close>

definition fence :: string where
  "fence = [CHR 0x60, CHR 0x60, CHR 0x60]"

text \<open>
  \<^verbatim>\<open>re.sub(r'^```[a-z]*\s*', '', cleaned, flags=re.MULTILINE)\<close>: at the start of the
  text and after every line feed, a fence with the lowercase letters and the whitespace
  that follow it is removed. \<open>linestart\<close> says that the position begins a line; \<open>skip\<close>
  counts the characters of the current match still to be removed.
\<close>

definition fence_open_len :: "string \<Rightarrow> nat" where
  "fence_open_len s =
     (let r = drop 3 s; letters = takeWhile is_lower_az r;
          spaces = takeWhile py_isspace (dropWhile is_lower_az r)
      in 3 + length letters + length spaces)"

fun sub_fence_open :: "bool \<Rightarrow> nat \<Rightarrow> string \<Rightarrow> string" where
  "sub_fence_open linestart skip [] = []"
| "sub_fence_open linestart (Suc k) (c # cs) = sub_fence_open (c = CHR 0x0A) k cs"
| "sub_fence_open linestart 0 (c # cs) =
     (if linestart \<and> startswith (c # cs) fence
      then sub_fence_open (c = CHR 0x0A) (fence_open_len (c # cs) - 1) cs
      else c # sub_fence_open (c = CHR 0x0A) 0 cs)"

text \<open>
  \<^verbatim>\<open>re.sub(r'\s*```\s*$', '', cleaned, flags=re.MULTILINE)\<close>: a fence with the
  whitespace before it is removed when, after it, whitespace leads to the end of the text
  or up to a line feed (the last one of that whitespace, by the greedy match).
\<close>

definition fence_close_len :: "string \<Rightarrow> nat option" where
  "fence_close_len s =
     (let lead = takeWhile py_isspace s; r = dropWhile py_isspace s
      in if startswith r fence
         then (let trail = takeWhile py_isspace (drop 3 r);
                   rest = dropWhile py_isspace (drop 3 r)
               in if rest = [] then Some (length lead + 3 + length trail)
                  else if CHR 0x0A \<in> set trail
                  then Some (length lead + 3
                             + (length (dropWhile (\<lambda>c. c \<noteq> CHR 0x0A) (rev trail)) - 1))
                  else None)
         else None)"

fun sub_fence_close :: "nat \<Rightarrow> string \<Rightarrow> string" where
  "sub_fence_close skip [] = []"
| "sub_fence_close (Suc k) (c # cs) = sub_fence_close k cs"
| "sub_fence_close 0 (c # cs) =
     (case fence_close_len (c # cs) of
        Some n \<Rightarrow> sub_fence_close (n - 1) cs
      | None \<Rightarrow> c # sub_fence_close 0 cs)"

definition clean_json_response :: "string \<Rightarrow> string" where
  "clean_json_response response_text =
     (let cleaned = py_strip response_text
      in if startswith cleaned fence
         then py_strip (sub_fence_close 0 (sub_fence_open True 0 cleaned))
         else cleaned)"

text \<open>\<^verbatim>\<open>s.find(c)\<close> and \<^verbatim>\<open>s.rfind(c)\<close>, with \<open>None\<close> for the result \<open>-1\<close>.\<close>

definition py_find :: "char \<Rightarrow> string \<Rightarrow> nat option" where
  "py_find c s = (if c \<in> set s then Some (length (takeWhile (\<lambda>x. x \<noteq> c) s)) else None)"

definition py_rfind :: "char \<Rightarrow> string \<Rightarrow> nat option" where
  "py_rfind c s =
     (if c \<in> set s then Some (length s - 1 - length (takeWhile (\<lambda>x. x \<noteq> c) (rev s))) else None)"

text \<open>The slice \<^verbatim>\<open>s[a:b]\<close> for \<open>0 \<le> a \<le> b\<close>.\<close>

definition py_slice :: "string \<Rightarrow> nat \<Rightarrow> nat \<Rightarrow> string" where
  "py_slice s a b = take (b - a) (drop a s)"

text \<open>
  The brace scan of \<^verbatim>\<open>_parse_veracity_response\<close>, over the text from index \<open>i\<close> on:
  the position after the brace that brings the count back to 0, when there is one.
\<close>

fun scan_braces :: "int \<Rightarrow> bool \<Rightarrow> bool \<Rightarrow> nat \<Rightarrow> string \<Rightarrow> nat option" where
  "scan_braces brace_count in_string escape_next i [] = None"
| "scan_braces brace_count in_string escape_next i (c # cs) =
     (if escape_next then scan_braces brace_count in_string False (Suc i) cs
      else if c = CHR 0x5C then scan_braces brace_count in_string True (Suc i) cs
      else if c = CHR 0x22 then scan_braces brace_count (\<not> in_string) False (Suc i) cs
      else if \<not> in_string then
        (if c = CHR ''{'' then scan_braces (brace_count + 1) in_string False (Suc i) cs
         else if c = CHR ''}'' then
           (if brace_count - 1 = 0 then Some (Suc i)
            else scan_braces (brace_count - 1) in_string False (Suc i) cs)
         else scan_braces brace_count in_string False (Suc i) cs)
      else scan_braces brace_count in_string False (Suc i) cs)"

definition extract_json_object :: "string \<Rightarrow> string" where
  "extract_json_object cleaned =
     (case py_find (CHR ''{'') cleaned of
        None \<Rightarrow> cleaned
      | Some first_brace \<Rightarrow>
          (let end_pos = (case scan_braces 0 False False first_brace (drop first_brace cleaned) of
                            Some e \<Rightarrow> e | None \<Rightarrow> first_brace)
           in if end_pos > first_brace then py_slice cleaned first_brace end_pos
              else (case py_rfind (CHR ''}'') cleaned of
                      None \<Rightarrow> cleaned
                    | Some last_brace \<Rightarrow>
                        if last_brace > first_brace
                        then py_slice cleaned first_brace (last_brace + 1)
                        else cleaned)))"

text \<open>
  \<^verbatim>\<open>_repair_json_strings\<close>. The source collects the output in a list of strings: one
  character each, or the two characters of an escaped quote. The look-back walks that
  list from its end over the elements that are a blank, a tab, a line feed or a carriage
  return, and joins the four elements that end at the first other one.
\<close>

definition is_value_position :: "string list \<Rightarrow> bool" where
  "is_value_position result =
     (let kept = rev (dropWhile (\<lambda>e. py_in e [CHR '' '', CHR 0x09, CHR 0x0A, CHR 0x0D]) (rev result))
      in if kept \<noteq> []
         then (let lookback = concat (drop (length kept - 4) kept)
               in CHR '':'' \<in> set lookback \<or> startswith (py_strip lookback) '','')
         else False)"

fun repair_loop :: "string list \<Rightarrow> bool \<Rightarrow> bool \<Rightarrow> string \<Rightarrow> string list" where
  "repair_loop result in_string escape_next [] = result"
| "repair_loop result in_string escape_next (c # cs) =
     (if escape_next then repair_loop (result @ [[c]]) in_string False cs
      else if c = CHR 0x5C then repair_loop (result @ [[c]]) in_string True cs
      else if c = CHR 0x22 then
        (if in_string \<and> is_value_position result
         then repair_loop (result @ [[CHR 0x5C, CHR 0x22]]) in_string False cs
         else repair_loop (result @ [[c]]) (\<not> in_string) False cs)
      else repair_loop (result @ [[c]]) in_string False cs)"

definition repair_json_strings :: "string \<Rightarrow> string" where
  "repair_json_strings json_str = concat (repair_loop [] False False json_str)"

text \<open>
  The three layers. \<open>loads\<close> stands for \<^verbatim>\<open>json.loads\<close>, the decoder of Python's
  standard library: it returns a value or raises. The first two calls stand under
  \<^verbatim>\<open>except json.JSONDecodeError\<close>, so any other exception leaves the method; the third
  stands under \<^verbatim>\<open>except (json.JSONDecodeError, Exception)\<close>. The result \<open>Inr None\<close>
  is the outcome "all strategies failed".
\<close>

type_synonym loads_fn = "string \<Rightarrow> py_error + json"

definition decode_layers :: "loads_fn \<Rightarrow> string \<Rightarrow> py_error + json option" where
  "decode_layers loads response_text =
     (case loads response_text of
        Inr data \<Rightarrow> Inr (Some data)
      | Inl JSONDecodeError \<Rightarrow>
          (let cleaned = extract_json_object (clean_json_response response_text)
           in case loads cleaned of
                Inr data \<Rightarrow> Inr (Some data)
              | Inl JSONDecodeError \<Rightarrow>
                  (case loads (repair_json_strings cleaned) of
                     Inr data \<Rightarrow> Inr (Some data)
                   | Inl e \<Rightarrow> Inr None)
              | Inl e \<Rightarrow> Inl e)
      | Inl e \<Rightarrow> Inl e)"

type_synonym verdict = "string \<times> json \<times> json \<times> source list"

definition valid_statuses :: "string list" where
  "valid_statuses = [''Factually Correct'', ''Untruth'', ''Misleading'', ''Unverifiable'']"

text \<open>The loop over the reported sources: objects with a true \<^verbatim>\<open>url\<close> are kept.\<close>

fun normalize_sources :: "json list \<Rightarrow> source list" where
  "normalize_sources [] = []"
| "normalize_sources (s # ss) =
     (case s of
        JObject d \<Rightarrow>
          if py_truthy (py_get d ''url'' JNull)
          then \<lparr>src_title = py_get d ''title'' (JString []),
                src_url = py_get d ''url'' (JString []),
                src_snippet = py_get d ''snippet'' (JString [])\<rparr> # normalize_sources ss
          else normalize_sources ss
      | _ \<Rightarrow> normalize_sources ss)"

definition reported_sources :: "json \<Rightarrow> source list" where
  "reported_sources sources = (case sources of JArray xs \<Rightarrow> normalize_sources xs | _ \<Rightarrow> [])"

definition checked_status :: "json \<Rightarrow> string" where
  "checked_status status =
     (case status of
        JString s \<Rightarrow> if s \<in> set valid_statuses then s else ''Unverifiable''
      | _ \<Rightarrow> ''Unverifiable'')"

text \<open>
  The second \<^verbatim>\<open>try\<close> block of \<^verbatim>\<open>_parse_veracity_response\<close>, with its exceptions as
  values: \<^verbatim>\<open>data.get\<close> raises when the decoded value is not an object.
\<close>

definition process_parsed_data :: "evidence list \<Rightarrow> json \<Rightarrow> py_error + verdict" where
  "process_parsed_data current data =
     (case data of
        JObject d \<Rightarrow>
          (let status = py_get d ''status'' (JString ''Unverifiable'');
               justification = py_get d ''justification'' (JString ''No analysis available'');
               verification_method = py_get d ''verification_method'' (JString ''Web search'');
               sources = reported_sources (py_get d ''sources'' (JArray []))
           in if sources = [] \<and> current \<noteq> []
              then (case auto_map_sources_from_results current justification of
                      Inl e \<Rightarrow> Inl e
                    | Inr mapped \<Rightarrow>
                        Inr (checked_status status, justification, verification_method, mapped))
              else Inr (checked_status status, justification, verification_method, sources))
      | _ \<Rightarrow> Inl AttributeError)"

definition parse_failure :: verdict where
  "parse_failure =
     (''Unverifiable'', JString ''Invalid JSON response from analysis'', JString ''Parse error'', [])"

definition processing_failure :: verdict where
  "processing_failure =
     (''Unverifiable'', JString ''Error processing analysis'', JString ''Parse error'', [])"

text \<open>
  \<^verbatim>\<open>_parse_veracity_response\<close>; \<open>current\<close> is the evidence buffer of the service, which
  the method reads. The result \<open>Inl e\<close> says that the method raises \<open>e\<close>.
\<close>

definition parse_veracity_response :: "loads_fn \<Rightarrow> evidence list \<Rightarrow> string \<Rightarrow> py_error + verdict" where
  "parse_veracity_response loads current response_text =
     (case decode_layers loads response_text of
        Inl e \<Rightarrow> Inl e
      | Inr None \<Rightarrow> Inr parse_failure
      | Inr (Some data) \<Rightarrow>
          (case process_parsed_data current data of
             Inl e \<Rightarrow> Inr processing_failure
           | Inr result \<Rightarrow> Inr result))"

section \<open>Verification\<close>

text \<open>
  What \<^verbatim>\<open>analyze_veracity\<close> calls outside the class: the search provider, the clock,
  the prompt template (loading or filling it may raise), the model call (it raises when
  the retries are used up) and the decoder.
\<close>

record env =
  env_search :: search_fn
  env_strftime :: "string \<Rightarrow> string"
  env_get_veracity_prompt :: "string \<Rightarrow> string \<Rightarrow> string \<Rightarrow> string \<Rightarrow> py_error + string"
  env_make_api_call :: "string \<Rightarrow> bool \<Rightarrow> py_error + string"
  env_loads :: loads_fn

definition get_default_veracity_analysis :: "string \<Rightarrow> string \<Rightarrow> string \<times> string \<times> string" where
  "get_default_veracity_analysis claim language =
     (''Unverifiable'', ''Analysis not available'', ''Default method used'')"

definition default_verdict :: "string \<Rightarrow> string \<Rightarrow> verdict" where
  "default_verdict claim language =
     (case get_default_veracity_analysis claim language of
        (status, justification, method) \<Rightarrow> (status, JString justification, JString method, []))"

text \<open>
  The lines of \<^verbatim>\<open>analyze_veracity\<close> that build the prompt and call the model: the
  response, or the exception of the template or of the call.
\<close>

definition request_model :: "env \<Rightarrow> string \<Rightarrow> string \<Rightarrow> string \<Rightarrow> py_error + string" where
  "request_model e claim language search_context =
     (let current_date = env_strftime e (if language = ''de'' then ''%d. %B %Y'' else ''%B %d, %Y'')
      in case env_get_veracity_prompt e claim current_date search_context language of
           Inl err \<Rightarrow> Inl err
         | Inr prompt \<Rightarrow> env_make_api_call e prompt True)"

text \<open>
  \<^verbatim>\<open>analyze_veracity\<close>: the verdict and the service state after the call. Every
  exception raised inside the \<^verbatim>\<open>try\<close> block ends in the handler, which returns the
  default verdict.
\<close>

definition analyze_veracity :: "env \<Rightarrow> service \<Rightarrow> string \<Rightarrow> string \<Rightarrow> verdict \<times> service" where
  "analyze_veracity e self claim language =
     (if \<not> enabled self then (default_verdict claim language, self)
      else
        (let all_search_results = perform_web_searches (env_search e) self claim language;
             (search_context, self1) = build_search_context self all_search_results language
         in case request_model e claim language search_context of
              Inl err \<Rightarrow> (default_verdict claim language, self1)
            | Inr response \<Rightarrow>
                (case parse_veracity_response (env_loads e) (current_search_results self1) response of
                   Inl err \<Rightarrow> (default_verdict claim language, self1)
                 | Inr result \<Rightarrow> (result, self1\<lparr>current_search_results := []\<rparr>))))"

text \<open>The sources of a verdict, and the valid sources that a response itself reports.\<close>

definition verdict_sources :: "verdict \<Rightarrow> source list" where
  "verdict_sources v = (case v of (status, justification, verification_method, sources) \<Rightarrow> sources)"

definition response_sources :: "loads_fn \<Rightarrow> string \<Rightarrow> source list" where
  "response_sources loads response_text =
     (case decode_layers loads response_text of
        Inr (Some (JObject d)) \<Rightarrow> reported_sources (py_get d ''sources'' (JArray []))
      | _ \<Rightarrow> [])"

section \<open>The decoder\<close>

text \<open>
  An executable model of \<^verbatim>\<open>json.loads\<close> (CPython's \<^verbatim>\<open>json\<close> module with its default
  options), for the results that need the decoder on a given text: the JSON grammar with
  the literals \<^verbatim>\<open>NaN\<close>, \<^verbatim>\<open>Infinity\<close> and \<^verbatim>\<open>-Infinity\<close>, control characters
  refused inside strings, nothing but whitespace after the value; a text that is not of
  this form raises \<^verbatim>\<open>JSONDecodeError\<close>. An integer literal of more than 4300 digits
  raises \<^verbatim>\<open>ValueError\<close> when it is read: the conversion of a string to an integer
  has this limit in CPython, and the error is not a \<^verbatim>\<open>JSONDecodeError\<close>. Two things
  are left out. CPython raises \<^verbatim>\<open>RecursionError\<close> on arrays and objects nested deeper
  than the interpreter's stack allows (about 1000 levels); the model decodes them. And an
  escape \<^verbatim>\<open>\uXXXX\<close> above \<^verbatim>\<open>00FF\<close> lies outside the 8-bit characters of this
  model; the character \<open>0xFF\<close> stands for it, so that it equals no ASCII character.
\<close>

definition json_ws :: "char \<Rightarrow> bool" where
  "json_ws c = (c = CHR '' '' \<or> c = CHR 0x09 \<or> c = CHR 0x0A \<or> c = CHR 0x0D)"

definition skip_ws :: "string \<Rightarrow> string" where
  "skip_ws s = dropWhile json_ws s"

definition is_digit :: "char \<Rightarrow> bool" where
  "is_digit c = (let n = (of_char c :: nat) in 48 \<le> n \<and> n \<le> 57)"

definition hex_val :: "char \<Rightarrow> nat option" where
  "hex_val c =
     (let n = (of_char c :: nat)
      in if 48 \<le> n \<and> n \<le> 57 then Some (n - 48)
         else if 97 \<le> n \<and> n \<le> 102 then Some (n - 87)
         else if 65 \<le> n \<and> n \<le> 70 then Some (n - 55)
         else None)"

definition hex4 :: "char \<Rightarrow> char \<Rightarrow> char \<Rightarrow> char \<Rightarrow> nat option" where
  "hex4 a b c d =
     (case (hex_val a, hex_val b, hex_val c, hex_val d) of
        (Some w, Some x, Some y, Some z) \<Rightarrow> Some (((w * 16 + x) * 16 + y) * 16 + z)
      | _ \<Rightarrow> None)"

definition escaped_char :: "nat \<Rightarrow> char" where
  "escaped_char n = (if n < 256 then char_of n else CHR 0xFF)"

definition unescape :: "char \<Rightarrow> char option" where
  "unescape e =
     (if e = CHR 0x22 then Some (CHR 0x22)
      else if e = CHR 0x5C then Some (CHR 0x5C)
      else if e = CHR ''/'' then Some (CHR ''/'')
      else if e = CHR ''b'' then Some (CHR 0x08)
      else if e = CHR ''f'' then Some (CHR 0x0C)
      else if e = CHR ''n'' then Some (CHR 0x0A)
      else if e = CHR ''r'' then Some (CHR 0x0D)
      else if e = CHR ''t'' then Some (CHR 0x09)
      else None)"

text \<open>The body of a string, after its opening quote: the decoded string and the rest.\<close>

fun scan_string :: "string \<Rightarrow> string \<Rightarrow> (string \<times> string) option" where
  "scan_string acc [] = None"
| "scan_string acc [c] = (if c = CHR 0x22 then Some (acc, []) else None)"
| "scan_string acc (c # e # es) =
     (if c = CHR 0x22 then Some (acc, e # es)
      else if c = CHR 0x5C then
        (if e = CHR ''u'' then
           (case es of
              h1 # h2 # h3 # h4 # rest \<Rightarrow>
                (case hex4 h1 h2 h3 h4 of
                   Some n \<Rightarrow> scan_string (acc @ [escaped_char n]) rest
                 | None \<Rightarrow> None)
            | _ \<Rightarrow> None)
         else (case unescape e of
                 Some ch \<Rightarrow> scan_string (acc @ [ch]) es
               | None \<Rightarrow> None))
      else if (of_char c :: nat) < 32 then None
      else scan_string (acc @ [c]) (e # es))"

definition digits_val :: "string \<Rightarrow> nat" where
  "digits_val ds = foldl (\<lambda>a c. 10 * a + (of_char c - 48)) 0 ds"

text \<open>The most digits that the conversion of a string to an integer accepts.\<close>

definition MAX_STR_DIGITS :: nat where
  "MAX_STR_DIGITS = 4300"

text \<open>
  A number: \<^verbatim>\<open>-?(0|[1-9][0-9]*)(\.[0-9]+)?([eE][-+]?[0-9]+)?\<close>, an integer when it
  has neither fraction nor exponent.
\<close>

definition scan_exponent :: "string \<Rightarrow> (int \<times> string) option" where
  "scan_exponent r =
     (case r of
        [] \<Rightarrow> None
      | e # es \<Rightarrow>
          if e = CHR ''e'' \<or> e = CHR ''E'' then
            (let negative = startswith es ''-'';
                 es1 = (if startswith es ''+'' \<or> negative then drop 1 es else es);
                 ed = takeWhile is_digit es1
             in if ed = [] then None
                else Some (if negative then - int (digits_val ed) else int (digits_val ed),
                           drop (length ed) es1))
          else None)"

definition scan_number :: "string \<Rightarrow> py_error + json \<times> string" where
  "scan_number s =
     (let negative = startswith s ''-'';
          r = (if negative then drop 1 s else s)
      in case r of
           [] \<Rightarrow> Inl JSONDecodeError
         | c # cs \<Rightarrow>
             if \<not> is_digit c then Inl JSONDecodeError
             else
               (let ip = (if c = CHR ''0'' then [c] else takeWhile is_digit r);
                    r1 = drop (length ip) r;
                    fd = (case r1 of
                            [] \<Rightarrow> []
                          | d # ds \<Rightarrow> if d = CHR ''.'' then takeWhile is_digit ds else []);
                    r2 = (if fd = [] then r1 else drop (1 + length fd) r1);
                    sign = (if negative then - 1 else 1)
                in case scan_exponent r2 of
                     Some (ex, r3) \<Rightarrow>
                       Inr (JFloat (sign * int (digits_val (ip @ fd))) (ex - int (length fd)), r3)
                   | None \<Rightarrow>
                       if fd \<noteq> []
                       then Inr (JFloat (sign * int (digits_val (ip @ fd))) (- int (length fd)), r2)
                       else if MAX_STR_DIGITS < length ip then Inl ValueError
                       else Inr (JInt (sign * int (digits_val ip)), r2)))"

text \<open>
  Values, the members of an object after its opening brace and the elements of an array
  after its opening bracket. The first argument bounds the number of nested calls; the
  length of the text is enough, as every call reads at least one character.
\<close>

fun parse_value :: "nat \<Rightarrow> string \<Rightarrow> py_error + json \<times> string"
  and parse_members :: "nat \<Rightarrow> (string \<times> json) list \<Rightarrow> string \<Rightarrow> py_error + json \<times> string"
  and parse_elems :: "nat \<Rightarrow> json list \<Rightarrow> string \<Rightarrow> py_error + json \<times> string" where
  "parse_value 0 s = Inl JSONDecodeError"
| "parse_value (Suc n) [] = Inl JSONDecodeError"
| "parse_value (Suc n) (c # cs) =
     (if c = CHR 0x22 then
        (case scan_string [] cs of
           None \<Rightarrow> Inl JSONDecodeError
         | Some (str, r) \<Rightarrow> Inr (JString str, r))
      else if c = CHR ''{'' then
        (let r = skip_ws cs
         in if startswith r ''}'' then Inr (JObject [], drop 1 r) else parse_members n [] r)
      else if c = CHR ''['' then
        (let r = skip_ws cs
         in if startswith r '']'' then Inr (JArray [], drop 1 r) else parse_elems n [] r)
      else if startswith (c # cs) ''null'' then Inr (JNull, drop 4 (c # cs))
      else if startswith (c # cs) ''true'' then Inr (JBool True, drop 4 (c # cs))
      else if startswith (c # cs) ''false'' then Inr (JBool False, drop 5 (c # cs))
      else if startswith (c # cs) ''NaN'' then Inr (JNaN, drop 3 (c # cs))
      else if startswith (c # cs) ''Infinity'' then Inr (JInfinity True, drop 8 (c # cs))
      else if startswith (c # cs) ''-Infinity'' then Inr (JInfinity False, drop 9 (c # cs))
      else scan_number (c # cs))"
| "parse_members 0 acc s = Inl JSONDecodeError"
| "parse_members (Suc n) acc [] = Inl JSONDecodeError"
| "parse_members (Suc n) acc (c # cs) =
     (if c \<noteq> CHR 0x22 then Inl JSONDecodeError
      else (case scan_string [] cs of
              None \<Rightarrow> Inl JSONDecodeError
            | Some (key, r) \<Rightarrow>
                (let r1 = skip_ws r
                 in if \<not> startswith r1 '':'' then Inl JSONDecodeError
                    else (case parse_value n (skip_ws (drop 1 r1)) of
                            Inl err \<Rightarrow> Inl err
                          | Inr (v, r2) \<Rightarrow>
                              (let r3 = skip_ws r2
                               in if startswith r3 ''}'' then Inr (JObject (acc @ [(key, v)]), drop 1 r3)
                                  else if startswith r3 '',''
                                  then parse_members n (acc @ [(key, v)]) (skip_ws (drop 1 r3))
                                  else Inl JSONDecodeError)))))"
| "parse_elems 0 acc s = Inl JSONDecodeError"
| "parse_elems (Suc n) acc s =
     (case parse_value n s of
        Inl err \<Rightarrow> Inl err
      | Inr (v, r) \<Rightarrow>
          (let r1 = skip_ws r
           in if startswith r1 '']'' then Inr (JArray (acc @ [v]), drop 1 r1)
              else if startswith r1 '',''
              then parse_elems n (acc @ [v]) (skip_ws (drop 1 r1))
              else Inl JSONDecodeError))"

definition json_loads :: loads_fn where
  "json_loads s =
     (case parse_value (Suc (length s)) (skip_ws s) of
        Inl err \<Rightarrow> Inl err
      | Inr (v, rest) \<Rightarrow> if skip_ws rest = [] then Inr v else Inl JSONDecodeError)"

section \<open>Sample inputs\<close>

text \<open>Concrete inputs, on which the results below are evaluated.\<close>

definition berlin_claim :: string where
  "berlin_claim = ''The Berlin Wall fell on November 9, 1989.''"

definition sample_wall :: evidence where
  "sample_wall =
     \<lparr>ev_title = ''Fall of the Berlin Wall'',
      ev_url = ''https://example.org/wall'',
      ev_snippet = ''The Berlin Wall fell on 9 November 1989 after weeks of protest.'',
      ev_age = []\<rparr>"

definition sample_weather :: evidence where
  "sample_weather =
     \<lparr>ev_title = ''Weather report'',
      ev_url = ''https://example.org/w'',
      ev_snippet = ''Sunny skies are expected across the region for the whole week.'',
      ev_age = []\<rparr>"

text \<open>
  An environment whose provider answers the first query with the given results and whose
  model call has the given outcome; the decoder is the model of \<^verbatim>\<open>json.loads\<close>.
\<close>

definition sample_env :: "evidence list \<Rightarrow> py_error + string \<Rightarrow> env" where
  "sample_env found outcome =
     \<lparr>env_search = (\<lambda>i query count language. if i = 1 then take count found else []),
      env_strftime = (\<lambda>format. ''November 04, 2026''),
      env_get_veracity_prompt = (\<lambda>claim current_date search_context language.
         Inr (claim @ current_date @ search_context)),
      env_make_api_call = (\<lambda>prompt is_veracity. outcome),
      env_loads = json_loads\<rparr>"

text \<open>An enabled service with an empty evidence buffer; \<open>web\<close> says that the provider is on.\<close>

definition sample_service :: "bool \<Rightarrow> service" where
  "sample_service web = \<lparr>enabled = True, web_search_enabled = web, current_search_results = []\<rparr>"

text \<open>Responses of the model: one that cites a source, one that cites none.\<close>

definition response_with_source :: string where
  \<open>response_with_source =
     ''{"status":"Untruth","justification":"No evidence was found","sources":[{"url":"https://invented.example/a"}]}''\<close>

definition response_without_sources :: string where
  \<open>response_without_sources =
     ''{"status":"Factually Correct","justification":"The Berlin wall fell in november 1989","sources":[]}''\<close>

text \<open>The response of claim C3, completed with the two remaining fields.\<close>

definition response_unescaped_quote :: string where
  \<open>response_unescaped_quote =
     ''{"status":"Untruth","justification":"He said "no" publicly","verification_method":"Web search","sources":[]}''\<close>

text \<open>A response that is one integer literal of 4301 digits.\<close>

definition response_long_integer :: string where
  "response_long_integer = replicate 4301 (CHR ''1'')"

section \<open>Properties of the ranking\<close>

lemma length_py_strip_le: "length (py_strip s) \<le> length s"
proof -
  have "length (py_strip s) \<le> length (dropWhile py_isspace s)"
    unfolding py_strip_def
    using length_dropWhile_le[of py_isspace "rev (dropWhile py_isspace s)"] by simp
  also have "\<dots> \<le> length s" by (rule length_dropWhile_le)
  finally show ?thesis .
qed

lemma relevance_score_pos:
  "MIN_SNIPPET_LENGTH \<le> length (ev_snippet r) \<Longrightarrow> 0 < relevance_score cw r"
  by (simp add: relevance_score_def Let_def MIN_SNIPPET_LENGTH_def)

lemma relevance_score_unmatched:
  assumes "MIN_SNIPPET_LENGTH \<le> length (ev_snippet r)"
    and "matching_words cw (py_lower (ev_snippet r)) = 0"
    and "matching_words cw (py_lower (ev_title r)) = 0"
  shows "relevance_score cw r = (if 100 \<le> length (ev_snippet r) then 2 else 1)"
  using assms by (simp add: relevance_score_def Let_def MIN_SNIPPET_LENGTH_def)

text \<open>The loop keeps exactly the results that pass the two length gates.\<close>

lemma filter_loop_eq:
  "filter_loop cw rs =
     map (\<lambda>r. (r, relevance_score cw r))
       (filter (\<lambda>r. MIN_SNIPPET_LENGTH \<le> length (py_strip (ev_snippet r))
                   \<and> MIN_URL_LENGTH \<le> length (py_strip (ev_url r))) rs)"
proof (induction rs)
  case Nil
  show ?case by simp
next
  case (Cons r rs)
  have pos: "MIN_SNIPPET_LENGTH \<le> length (py_strip (ev_snippet r)) \<Longrightarrow> relevance_score cw r \<noteq> 0"
    using relevance_score_pos[of r cw] length_py_strip_le[of "ev_snippet r"] by simp
  have url: "MIN_URL_LENGTH \<le> length (py_strip (ev_url r)) \<Longrightarrow> ev_url r \<noteq> []"
    using length_py_strip_le[of "ev_url r"] by (auto simp: MIN_URL_LENGTH_def)
  show ?case using Cons.IH pos url by (auto simp: Let_def not_less)
qed

lemma filter_take_prefix: "prefix (filter P (take n xs)) (filter P xs)"
  by (metis append_take_drop_id filter_append prefixI)

lemma py_slice_to_nonneg: "0 \<le> n \<Longrightarrow> py_slice_to xs n = take (nat n) xs"
  by (simp add: py_slice_to_def)

lemma ranked_pairs:
  fixes cw rs
  defines "gate \<equiv> (\<lambda>r. MIN_SNIPPET_LENGTH \<le> length (py_strip (ev_snippet r))
                   \<and> MIN_URL_LENGTH \<le> length (py_strip (ev_url r)))"
  defines "ranked \<equiv> map fst (py_sort_reverse (\<lambda>x. int (snd x)) (filter_loop cw rs))"
  shows "set ranked = set (filter gate rs)"
    and "sorted_wrt (\<lambda>a b. relevance_score cw b \<le> relevance_score cw a) ranked"
    and "filter (\<lambda>r. relevance_score cw r = k) ranked
         = filter (\<lambda>r. relevance_score cw r = k) (filter gate rs)"
    and "length ranked \<le> length rs"
proof -
  let ?sc = "relevance_score cw"
  let ?ps = "map (\<lambda>r. (r, ?sc r)) (filter gate rs)"
  let ?key = "\<lambda>x::evidence \<times> nat. - int (snd x)"
  have fl: "filter_loop cw rs = ?ps" unfolding gate_def by (rule filter_loop_eq)
  have r: "ranked = map fst (sort_key ?key ?ps)" by (simp add: ranked_def py_sort_reverse_def fl)
  have mem: "\<And>x. x \<in> set (sort_key ?key ?ps) \<Longrightarrow> snd x = ?sc (fst x)" by auto
  show "set ranked = set (filter gate rs)" unfolding r by (simp add: image_image del: set_filter)
  show "length ranked \<le> length rs" unfolding r by simp
  have "sorted (map ?key (sort_key ?key ?ps))" by (rule sorted_sort_key)
  then have "sorted_wrt (\<lambda>x y. ?key x \<le> ?key y) (sort_key ?key ?ps)"
    by (simp add: sorted_map)
  then have "sorted_wrt (\<lambda>x y. ?sc (fst y) \<le> ?sc (fst x)) (sort_key ?key ?ps)"
    by (rule sorted_wrt_mono_rel[rotated]) (use mem in auto)
  then show "sorted_wrt (\<lambda>a b. ?sc b \<le> ?sc a) ranked"
    unfolding r by (simp add: sorted_wrt_map)
  have "filter (\<lambda>r. ?sc r = k) ranked = map fst (filter (\<lambda>x. ?sc (fst x) = k) (sort_key ?key ?ps))"
    unfolding r by (simp add: filter_map comp_def)
  also have "filter (\<lambda>x. ?sc (fst x) = k) (sort_key ?key ?ps)
             = filter (\<lambda>x. ?key x = - int k) (sort_key ?key ?ps)"
    by (rule filter_cong) (use mem in auto)
  also have "\<dots> = filter (\<lambda>x. ?key x = - int k) ?ps" by (rule sort_key_stable)
  also have "map fst \<dots> = filter (\<lambda>r. ?sc r = k) (filter gate rs)"
    by (simp add: filter_map comp_def)
  finally show "filter (\<lambda>r. ?sc r = k) ranked = filter (\<lambda>r. ?sc r = k) (filter gate rs)" .
qed

text \<open>
  Claim C2 says that a result which passes the length gates but matches no claim word is
  rejected. The code keeps it: the bonus for the snippet length is already in the score
  when the score is compared with 0, so the comparison never rejects anything. Whenever
  the cap leaves room, a result that passes the gates and matches no claim word, neither
  in its snippet nor in its title, is in the output, with the score 1 or 2 of its length
  bonus alone.
\<close>

theorem unmatched_result_is_kept:
  assumes "r \<in> set results"
    and "MIN_SNIPPET_LENGTH \<le> length (py_strip (ev_snippet r))"
    and "MIN_URL_LENGTH \<le> length (py_strip (ev_url r))"
    and "matching_words (claim_words_of claim) (py_lower (ev_snippet r)) = 0"
    and "matching_words (claim_words_of claim) (py_lower (ev_title r)) = 0"
    and "int (length results) \<le> max_results"
  shows "r \<in> set (filter_search_results results claim max_results)
    \<and> relevance_score (claim_words_of claim) r = (if 100 \<le> length (ev_snippet r) then 2 else 1)"
proof -
  let ?cw = "claim_words_of claim"
  let ?ranked = "map fst (py_sort_reverse (\<lambda>x. int (snd x)) (filter_loop ?cw results))"
  from assms(1) have ne: "results \<noteq> []" by auto
  from assms(6) have nonneg: "0 \<le> max_results" by linarith
  have "length ?ranked \<le> nat max_results"
    using ranked_pairs(4)[of ?cw results] assms(6) by linarith
  then have "filter_search_results results claim max_results = ?ranked"
    using ne nonneg by (simp add: filter_search_results_def Let_def py_slice_to_nonneg)
  moreover have "r \<in> set ?ranked"
    unfolding ranked_pairs(1) using assms(1,2,3) by simp
  moreover have "MIN_SNIPPET_LENGTH \<le> length (ev_snippet r)"
    using assms(2) length_py_strip_le[of "ev_snippet r"] by linarith
  ultimately show ?thesis
    using relevance_score_unmatched[of r ?cw] assms(4,5) by simp
qed

theorem unmatched_result_is_kept_witness:
  "sample_weather \<in> set [sample_weather]
   \<and> MIN_SNIPPET_LENGTH \<le> length (py_strip (ev_snippet sample_weather))
   \<and> MIN_URL_LENGTH \<le> length (py_strip (ev_url sample_weather))
   \<and> matching_words (claim_words_of berlin_claim) (py_lower (ev_snippet sample_weather)) = 0
   \<and> matching_words (claim_words_of berlin_claim) (py_lower (ev_title sample_weather)) = 0
   \<and> int (length [sample_weather]) \<le> MAX_FILTERED_RESULTS
   \<and> sample_weather \<in> set (filter_search_results [sample_weather] berlin_claim MAX_FILTERED_RESULTS)
   \<and> relevance_score (claim_words_of berlin_claim) sample_weather = 1"
proof -
  have h1: "sample_weather \<in> set [sample_weather]" by simp
  have h2: "MIN_SNIPPET_LENGTH \<le> length (py_strip (ev_snippet sample_weather))" by code_simp
  have h3: "MIN_URL_LENGTH \<le> length (py_strip (ev_url sample_weather))" by code_simp
  have h4: "matching_words (claim_words_of berlin_claim) (py_lower (ev_snippet sample_weather)) = 0"
    by code_simp
  have h5: "matching_words (claim_words_of berlin_claim) (py_lower (ev_title sample_weather)) = 0"
    by code_simp
  have h6: "int (length [sample_weather]) \<le> MAX_FILTERED_RESULTS"
    by (simp add: MAX_FILTERED_RESULTS_def)
  have short: "\<not> 100 \<le> length (ev_snippet sample_weather)" by code_simp
  from unmatched_result_is_kept[OF h1 h2 h3 h4 h5 h6] short
  have "sample_weather \<in> set (filter_search_results [sample_weather] berlin_claim MAX_FILTERED_RESULTS)
    \<and> relevance_score (claim_words_of berlin_claim) sample_weather = 1" by simp
  with h1 h2 h3 h4 h5 h6 show ?thesis by blast
qed

text \<open>
  Claim C8: for every input list, every claim and every \<open>max_results\<close> (the number of
  items asked for, a non-negative integer; the caller passes \<open>MAX_FILTERED_RESULTS\<close>, which
  is also the default), the ranker returns at most \<open>max_results\<close> items; every returned
  item has a snippet of at least 50 and a url of at least 5 characters; the returned items
  are in descending order of relevance score; and for every score, the returned items of
  that score are, in their order, an initial part of the input items of that score that
  pass the length gates, so that items of equal score keep their input order.
\<close>

theorem ranker_contract:
  assumes "0 \<le> max_results"
  shows "int (length (filter_search_results results claim max_results)) \<le> max_results
    \<and> (\<forall>r \<in> set (filter_search_results results claim max_results).
          MIN_SNIPPET_LENGTH \<le> length (ev_snippet r) \<and> MIN_URL_LENGTH \<le> length (ev_url r))
    \<and> sorted_wrt (\<lambda>a b. relevance_score (claim_words_of claim) b
                          \<le> relevance_score (claim_words_of claim) a)
         (filter_search_results results claim max_results)
    \<and> (\<forall>k. prefix
          (filter (\<lambda>r. relevance_score (claim_words_of claim) r = k)
             (filter_search_results results claim max_results))
          (filter (\<lambda>r. relevance_score (claim_words_of claim) r = k)
             (filter (\<lambda>r. MIN_SNIPPET_LENGTH \<le> length (py_strip (ev_snippet r))
                         \<and> MIN_URL_LENGTH \<le> length (py_strip (ev_url r))) results)))"
proof (cases "results = []")
  case True
  then show ?thesis using assms by (simp add: filter_search_results_def)
next
  case False
  let ?cw = "claim_words_of claim"
  let ?ranked = "map fst (py_sort_reverse (\<lambda>x. int (snd x)) (filter_loop ?cw results))"
  let ?out = "filter_search_results results claim max_results"
  have out: "?out = take (nat max_results) ?ranked"
    using False assms by (simp add: filter_search_results_def Let_def py_slice_to_nonneg)
  have len: "int (length ?out) \<le> max_results" using assms unfolding out by simp
  have gates: "\<forall>r \<in> set ?out. MIN_SNIPPET_LENGTH \<le> length (ev_snippet r)
                 \<and> MIN_URL_LENGTH \<le> length (ev_url r)"
  proof
    fix r assume "r \<in> set ?out"
    then have "r \<in> set ?ranked" unfolding out by (rule in_set_takeD)
    then have "MIN_SNIPPET_LENGTH \<le> length (py_strip (ev_snippet r))
        \<and> MIN_URL_LENGTH \<le> length (py_strip (ev_url r))"
      unfolding ranked_pairs(1) by simp
    then show "MIN_SNIPPET_LENGTH \<le> length (ev_snippet r) \<and> MIN_URL_LENGTH \<le> length (ev_url r)"
      using length_py_strip_le[of "ev_snippet r"] length_py_strip_le[of "ev_url r"] by linarith
  qed
  have srt: "sorted_wrt (\<lambda>a b. relevance_score ?cw b \<le> relevance_score ?cw a) ?out"
    unfolding out by (rule sorted_wrt_take) (rule ranked_pairs(2))
  have stab: "\<forall>k. prefix (filter (\<lambda>r. relevance_score ?cw r = k) ?out)
          (filter (\<lambda>r. relevance_score ?cw r = k)
             (filter (\<lambda>r. MIN_SNIPPET_LENGTH \<le> length (py_strip (ev_snippet r))
                         \<and> MIN_URL_LENGTH \<le> length (py_strip (ev_url r))) results))"
  proof
    fix k
    show "prefix (filter (\<lambda>r. relevance_score ?cw r = k) ?out)
          (filter (\<lambda>r. relevance_score ?cw r = k)
             (filter (\<lambda>r. MIN_SNIPPET_LENGTH \<le> length (py_strip (ev_snippet r))
                         \<and> MIN_URL_LENGTH \<le> length (py_strip (ev_url r))) results))"
      unfolding out ranked_pairs(3)[symmetric] by (rule filter_take_prefix)
  qed
  from len gates srt stab show ?thesis by blast
qed

theorem ranker_contract_witness:
  "(0::int) \<le> 1
   \<and> int (length (filter_search_results [sample_weather, sample_wall] berlin_claim 1)) \<le> 1
   \<and> filter_search_results [sample_weather, sample_wall] berlin_claim 1 = [sample_wall]
   \<and> filter_search_results [sample_weather, sample_wall] berlin_claim 5
       = [sample_wall, sample_weather]"
proof -
  have h: "(0::int) \<le> 1" by simp
  have "int (length (filter_search_results [sample_weather, sample_wall] berlin_claim 1)) \<le> 1"
    using ranker_contract[OF h, of "[sample_weather, sample_wall]" berlin_claim] by blast
  moreover have "filter_search_results [sample_weather, sample_wall] berlin_claim 1 = [sample_wall]"
    by code_simp
  moreover have "filter_search_results [sample_weather, sample_wall] berlin_claim 5
       = [sample_wall, sample_weather]"
    by code_simp
  ultimately show ?thesis using h by blast
qed

section \<open>Properties of the query list\<close>

text \<open>
  Claim C7: for every claim and every language, the query list that the search runs on
  (the expansion with the claim inserted in front, and the part of it that is executed)
  is not empty, and its first element is the claim as given.
\<close>

theorem query_list_starts_with_claim:
  "search_queries claim language \<noteq> []
   \<and> hd (search_queries claim language) = claim
   \<and> executed_queries claim language \<noteq> []
   \<and> hd (executed_queries claim language) = claim"
  by (simp add: search_queries_def executed_queries_def MAX_SEARCH_QUERIES_def)

section \<open>Properties of the reconciliation\<close>

lemma map_loop_eq:
  "map_loop ws rs = map source_of_result (filter (\<lambda>r. MIN_RELEVANCE_SCORE \<le> relevance ws r) rs)"
  by (induction rs) simp_all

lemma auto_map_string:
  assumes "current \<noteq> []"
  shows "auto_map_sources_from_results current (JString j) =
     Inr (map source_of_result
       (if filter (\<lambda>r. MIN_RELEVANCE_SCORE \<le> relevance (justification_words_of j) r) current = []
        then take AUTO_MAP_FALLBACK_SOURCES current
        else filter (\<lambda>r. MIN_RELEVANCE_SCORE \<le> relevance (justification_words_of j) r) current))"
  using assms by (simp add: auto_map_sources_from_results_def Let_def map_loop_eq)



section \<open>Properties of the parser\<close>

lemma checked_status_valid: "checked_status status \<in> set valid_statuses"
  by (auto simp: checked_status_def valid_statuses_def split: json.splits)

lemma process_parsed_data_status:
  "process_parsed_data current data = Inr (status, j, m, srcs) \<Longrightarrow> status \<in> set valid_statuses"
  using checked_status_valid
  by (auto simp: process_parsed_data_def Let_def split: json.splits if_splits sum.splits)

lemma decode_layers_contract:
  assumes "\<forall>s err. loads s = Inl err \<longrightarrow> err = JSONDecodeError"
  shows "\<exists>r. decode_layers loads response_text = Inr r"
proof (cases "loads response_text")
  case (Inr data)
  then show ?thesis by (simp add: decode_layers_def)
next
  case (Inl err)
  then have first: "loads response_text = Inl JSONDecodeError" using assms by blast
  let ?cleaned = "extract_json_object (clean_json_response response_text)"
  show ?thesis
  proof (cases "loads ?cleaned")
    case (Inr data)
    then show ?thesis using first by (simp add: decode_layers_def Let_def)
  next
    case (Inl err2)
    then have second: "loads ?cleaned = Inl JSONDecodeError" using assms by blast
    show ?thesis
      using first second
      by (cases "loads (repair_json_strings ?cleaned)") (simp_all add: decode_layers_def Let_def)
  qed
qed

lemma decode_layers_all_fail:
  assumes "loads response_text = Inl JSONDecodeError"
    and "loads (extract_json_object (clean_json_response response_text)) = Inl JSONDecodeError"
    and "loads (repair_json_strings (extract_json_object (clean_json_response response_text)))
         = Inl err"
  shows "decode_layers loads response_text = Inr None"
  using assms by (simp add: decode_layers_def Let_def)

lemma parse_after_decode:
  assumes "decode_layers loads response_text = Inr r"
  shows "\<exists>status j m srcs. parse_veracity_response loads current response_text
            = Inr (status, j, m, srcs) \<and> status \<in> set valid_statuses"
proof (cases r)
  case None
  then show ?thesis using assms
    by (simp add: parse_veracity_response_def parse_failure_def valid_statuses_def)
next
  case (Some data)
  show ?thesis
  proof (cases "process_parsed_data current data")
    case (Inl err)
    then show ?thesis using assms Some
      by (simp add: parse_veracity_response_def processing_failure_def valid_statuses_def)
  next
    case (Inr result)
    obtain status j m srcs where res: "result = (status, j, m, srcs)" by (cases result) auto
    then have "status \<in> set valid_statuses"
      using Inr process_parsed_data_status by blast
    then show ?thesis using assms Some Inr res by (simp add: parse_veracity_response_def)
  qed
qed

text \<open>
  With a decoder that returns a value or raises \<^verbatim>\<open>JSONDecodeError\<close> and nothing else,
  the parser returns a verdict with one of the four statuses for every text, and the
  hard-failure verdict when the three decodings fail.
\<close>

lemma parser_returns_under_contract:
  assumes "\<forall>s err. loads s = Inl err \<longrightarrow> err = JSONDecodeError"
  shows "(\<exists>status j m srcs. parse_veracity_response loads current response_text
             = Inr (status, j, m, srcs) \<and> status \<in> set valid_statuses)
    \<and> (loads response_text = Inl JSONDecodeError
        \<and> loads (extract_json_object (clean_json_response response_text)) = Inl JSONDecodeError
        \<and> loads (repair_json_strings (extract_json_object (clean_json_response response_text)))
            = Inl JSONDecodeError
       \<longrightarrow> parse_veracity_response loads current response_text
            = Inr (''Unverifiable'', JString ''Invalid JSON response from analysis'',
                   JString ''Parse error'', []))"
proof -
  from decode_layers_contract[OF assms] obtain r
    where "decode_layers loads response_text = Inr r" by blast
  then have returns: "\<exists>status j m srcs. parse_veracity_response loads current response_text
             = Inr (status, j, m, srcs) \<and> status \<in> set valid_statuses"
    by (rule parse_after_decode)
  have fails: "loads response_text = Inl JSONDecodeError
        \<and> loads (extract_json_object (clean_json_response response_text)) = Inl JSONDecodeError
        \<and> loads (repair_json_strings (extract_json_object (clean_json_response response_text)))
            = Inl JSONDecodeError
       \<longrightarrow> parse_veracity_response loads current response_text
            = Inr (''Unverifiable'', JString ''Invalid JSON response from analysis'',
                   JString ''Parse error'', [])"
    using decode_layers_all_fail[of loads response_text JSONDecodeError]
    by (auto simp: parse_veracity_response_def parse_failure_def)
  from returns fails show ?thesis by blast
qed

text \<open>
  An exception of the first or of the second decoding that is not a
  \<^verbatim>\<open>JSONDecodeError\<close> passes the handlers of lines 449 and 489 and leaves the parser:
  the handler of the method's last part (line 530) does not enclose the decodings.
\<close>

lemma parser_raises_first:
  assumes "loads response_text = Inl err" and "err \<noteq> JSONDecodeError"
  shows "parse_veracity_response loads current response_text = Inl err"
  using assms
  by (cases err) (simp_all add: parse_veracity_response_def decode_layers_def)

lemma parser_raises_second:
  assumes "loads response_text = Inl JSONDecodeError"
    and "loads (extract_json_object (clean_json_response response_text)) = Inl err"
    and "err \<noteq> JSONDecodeError"
  shows "parse_veracity_response loads current response_text = Inl err"
  using assms
  by (cases err) (simp_all add: parse_veracity_response_def decode_layers_def Let_def)

text \<open>The decoder on a text that is one integer literal of more than 4300 digits.\<close>

lemma digit_not_ws: "is_digit c \<Longrightarrow> \<not> json_ws c"
  by (auto simp: is_digit_def json_ws_def)

lemma parse_value_digit:
  assumes "is_digit c"
  shows "parse_value (Suc n) (c # cs) = scan_number (c # cs)"
proof -
  have "c \<noteq> CHR 0x22" "c \<noteq> CHR ''{''" "c \<noteq> CHR ''[''" "c \<noteq> CHR ''n''" "c \<noteq> CHR ''t''"
    "c \<noteq> CHR ''f''" "c \<noteq> CHR ''N''" "c \<noteq> CHR ''I''" "c \<noteq> CHR ''-''"
    using assms by (auto simp: is_digit_def)
  then show ?thesis by simp
qed

lemma scan_number_long_integer:
  assumes digits: "\<forall>c\<in>set ds. is_digit c"
    and long: "MAX_STR_DIGITS < length ds"
    and nonzero: "hd ds \<noteq> CHR ''0''"
  shows "scan_number ds = Inl ValueError"
proof -
  from long obtain c cs where ds: "ds = c # cs" by (cases ds) auto
  have c: "is_digit c" "c \<noteq> CHR ''0''" using digits nonzero ds by auto
  then have minus: "c \<noteq> CHR ''-''" by (auto simp: is_digit_def)
  have all: "takeWhile is_digit (c # cs) = c # cs"
    using digits ds by simp
  have "scan_number (c # cs) = (if MAX_STR_DIGITS < length (c # cs) then Inl ValueError
           else Inr (JInt (int (digits_val (c # cs))), []))"
    using c minus
    by (simp add: scan_number_def Let_def scan_exponent_def all del: takeWhile.simps)
  then show ?thesis using long ds by simp
qed

lemma json_loads_long_integer:
  assumes "\<forall>c\<in>set ds. is_digit c" and "MAX_STR_DIGITS < length ds" and "hd ds \<noteq> CHR ''0''"
  shows "json_loads ds = Inl ValueError"
proof -
  from assms(2) obtain c cs where ds: "ds = c # cs" by (cases ds) auto
  then have c: "is_digit c" using assms(1) by simp
  then have ws: "skip_ws ds = ds" using ds by (simp add: skip_ws_def digit_not_ws)
  have "parse_value (Suc (length ds)) ds = scan_number ds"
    using parse_value_digit[OF c] ds by simp
  then show ?thesis
    using ws scan_number_long_integer[OF assms] by (simp add: json_loads_def)
qed

text \<open>
  Claim C4 says that the parser returns a verdict for every input string and never
  raises. The code does not do so: on a response that is an integer literal of 4301
  digits the first \<^verbatim>\<open>json.loads\<close> raises \<^verbatim>\<open>ValueError\<close>, which the handler
  \<^verbatim>\<open>except json.JSONDecodeError\<close> of line 449 does not catch, and the parser raises it
  whatever the evidence buffer holds; no verdict is returned, and the recovery layers
  and the hard-failure verdict are not reached.
\<close>

theorem parser_raises_on_long_integer:
  "json_loads response_long_integer = Inl ValueError
   \<and> (\<forall>current. parse_veracity_response json_loads current response_long_integer
                  = Inl ValueError)"
proof -
  have "json_loads response_long_integer = Inl ValueError"
    by (rule json_loads_long_integer)
       (simp_all add: response_long_integer_def MAX_STR_DIGITS_def is_digit_def hd_replicate)
  then show ?thesis
    by (simp add: parse_veracity_response_def decode_layers_def)
qed

section \<open>Properties of the verification\<close>

lemma build_search_context_buffer:
  "current_search_results (snd (build_search_context self search_results language)) = search_results"
  by (simp add: build_search_context_def)

lemma build_search_context_empty:
  "fst (build_search_context self [] language) = fst (build_search_context self' [] language)"
  by (simp add: build_search_context_def)

lemma default_verdict_eq:
  "default_verdict claim language
   = (''Unverifiable'', JString ''Analysis not available'', JString ''Default method used'', [])"
  by (simp add: default_verdict_def get_default_veracity_analysis_def)

text \<open>The call, unfolded along its paths, for an enabled service.\<close>

lemma analyze_veracity_enabled:
  assumes "enabled self"
  shows "analyze_veracity e self claim language =
     (let ev = perform_web_searches (env_search e) self claim language;
          self1 = snd (build_search_context self ev language)
      in case request_model e claim language (fst (build_search_context self ev language)) of
           Inl err \<Rightarrow> (default_verdict claim language, self1)
         | Inr response \<Rightarrow>
             (case parse_veracity_response (env_loads e) ev response of
                Inl err \<Rightarrow> (default_verdict claim language, self1)
              | Inr result \<Rightarrow> (result, self1\<lparr>current_search_results := []\<rparr>)))"
proof -
  let ?ev = "perform_web_searches (env_search e) self claim language"
  obtain ctx self1 where b: "build_search_context self ?ev language = (ctx, self1)"
    by (cases "build_search_context self ?ev language") auto
  have "current_search_results self1 = ?ev"
    using build_search_context_buffer[of self ?ev language] b by simp
  then show ?thesis using assms b
    by (simp add: analyze_veracity_def Let_def split: sum.splits)
qed

text \<open>
  Claim C6 says that the evidence buffer is empty after every call, on the failure path
  as on the success path. The code clears it on the success path only: for an enabled
  service the buffer after the call is empty when the model answered and the parser
  returned, and otherwise (the template, the model call or the parser raised, and the
  handler returned the default verdict) it still holds the evidence gathered for the call.
\<close>

theorem buffer_after_call:
  assumes "enabled self"
  shows "current_search_results (snd (analyze_veracity e self claim language)) =
     (case request_model e claim language
             (fst (build_search_context self
                     (perform_web_searches (env_search e) self claim language) language)) of
        Inl err \<Rightarrow> perform_web_searches (env_search e) self claim language
      | Inr response \<Rightarrow>
          (case parse_veracity_response (env_loads e)
                  (perform_web_searches (env_search e) self claim language) response of
             Inl err \<Rightarrow> perform_web_searches (env_search e) self claim language
           | Inr result \<Rightarrow> []))"
  unfolding analyze_veracity_enabled[OF assms]
  by (simp add: Let_def build_search_context_buffer split: sum.splits)

theorem buffer_after_call_witness:
  "enabled (sample_service True)
   \<and> fst (analyze_veracity (sample_env [sample_wall] (Inl ApiError)) (sample_service True)
            berlin_claim ''en'')
       = (''Unverifiable'', JString ''Analysis not available'', JString ''Default method used'', [])
   \<and> current_search_results
       (snd (analyze_veracity (sample_env [sample_wall] (Inl ApiError)) (sample_service True)
               berlin_claim ''en''))
       = [sample_wall]"
proof -
  let ?e = "sample_env [sample_wall] (Inl ApiError)"
  have h: "enabled (sample_service True)" by (simp add: sample_service_def)
  have ev: "perform_web_searches (env_search ?e) (sample_service True) berlin_claim ''en''
            = [sample_wall]" by code_simp
  have rq: "\<And>ctx. request_model ?e berlin_claim ''en'' ctx = Inl ApiError"
    by (simp add: request_model_def sample_env_def)
  have "current_search_results (snd (analyze_veracity ?e (sample_service True) berlin_claim ''en''))
        = [sample_wall]"
    using buffer_after_call[OF h, of ?e berlin_claim "''en''"] by (simp add: ev rq)
  moreover have "fst (analyze_veracity ?e (sample_service True) berlin_claim ''en'')
       = (''Unverifiable'', JString ''Analysis not available'', JString ''Default method used'', [])"
    unfolding analyze_veracity_enabled[OF h] by (simp add: Let_def rq default_verdict_eq)
  ultimately show ?thesis using h by blast
qed

text \<open>
  Claim C5, amended: for the claim "The Berlin Wall fell on November 9, 1989.", the
  language \<open>en\<close> and the evidence provider disabled, \<^verbatim>\<open>analyze_veracity\<close> returns the
  status Unverifiable, the justification "Analysis not available", the method "Default
  method used" and no sources whenever the model service is disabled, or the template,
  the model call or the parser raises; when the model answers, the verdict is the one that
  the parser reads from the response with an empty evidence buffer.
\<close>

theorem provider_disabled_verdict:
  assumes "\<not> web_search_enabled self"
  shows "fst (analyze_veracity e self berlin_claim ''en'') =
     (if enabled self then
        (case request_model e berlin_claim ''en'' (fst (build_search_context self [] ''en'')) of
           Inl err \<Rightarrow>
             (''Unverifiable'', JString ''Analysis not available'', JString ''Default method used'', [])
         | Inr response \<Rightarrow>
             (case parse_veracity_response (env_loads e) [] response of
                Inl err \<Rightarrow>
                  (''Unverifiable'', JString ''Analysis not available'',
                   JString ''Default method used'', [])
              | Inr result \<Rightarrow> result))
      else (''Unverifiable'', JString ''Analysis not available'', JString ''Default method used'', []))"
proof (cases "enabled self")
  case False
  then show ?thesis by (simp add: analyze_veracity_def default_verdict_eq)
next
  case True
  have ev: "perform_web_searches (env_search e) self berlin_claim ''en'' = []"
    using assms by (simp add: perform_web_searches_def)
  show ?thesis
    unfolding analyze_veracity_enabled[OF True]
    using True by (simp add: Let_def ev default_verdict_eq split: sum.splits)
qed

theorem provider_disabled_verdict_witness:
  "\<not> web_search_enabled (sample_service False)
   \<and> fst (analyze_veracity (sample_env [sample_wall] (Inl ApiError)) (sample_service False)
            berlin_claim ''en'')
       = (''Unverifiable'', JString ''Analysis not available'', JString ''Default method used'', [])
   \<and> fst (analyze_veracity (sample_env [sample_wall] (Inr response_with_source))
            ((sample_service False)\<lparr>enabled := False\<rparr>) berlin_claim ''en'')
       = (''Unverifiable'', JString ''Analysis not available'', JString ''Default method used'', [])"
proof -
  have h: "\<not> web_search_enabled (sample_service False)" by (simp add: sample_service_def)
  have h': "\<not> web_search_enabled ((sample_service False)\<lparr>enabled := False\<rparr>)"
    by (simp add: sample_service_def)
  have rq: "\<And>ctx. request_model (sample_env [sample_wall] (Inl ApiError)) berlin_claim ''en'' ctx
            = Inl ApiError"
    by (simp add: request_model_def sample_env_def)
  have a: "fst (analyze_veracity (sample_env [sample_wall] (Inl ApiError)) (sample_service False)
            berlin_claim ''en'')
       = (''Unverifiable'', JString ''Analysis not available'', JString ''Default method used'', [])"
    using provider_disabled_verdict[OF h, of "sample_env [sample_wall] (Inl ApiError)"]
    by (simp add: rq)
  have b: "fst (analyze_veracity (sample_env [sample_wall] (Inr response_with_source))
            ((sample_service False)\<lparr>enabled := False\<rparr>) berlin_claim ''en'')
       = (''Unverifiable'', JString ''Analysis not available'', JString ''Default method used'', [])"
    using provider_disabled_verdict[OF h', of "sample_env [sample_wall] (Inr response_with_source)"]
    by (simp add: sample_service_def)
  from h a b show ?thesis by blast
qed

theorem provider_disabled_counterexample:
  "fst (analyze_veracity (sample_env [] (Inr response_with_source)) (sample_service False)
          berlin_claim ''en'')
   = (''Untruth'', JString ''No evidence was found'', JString ''Web search'',
      [\<lparr>src_title = JString [], src_url = JString ''https://invented.example/a'',
        src_snippet = JString []\<rparr>])"
  by code_simp

section \<open>Where the returned sources come from\<close>

lemma auto_map_subset:
  assumes "auto_map_sources_from_results current justification = Inr mapped"
  shows "set mapped \<subseteq> source_of_result ` set current"
proof (cases "current = []")
  case True
  then show ?thesis using assms by (simp add: auto_map_sources_from_results_def)
next
  case False
  then obtain j where j: "justification = JString j"
    using assms by (auto simp: auto_map_sources_from_results_def split: json.splits)
  have "mapped = map source_of_result
       (if filter (\<lambda>r. MIN_RELEVANCE_SCORE \<le> relevance (justification_words_of j) r) current = []
        then take AUTO_MAP_FALLBACK_SOURCES current
        else filter (\<lambda>r. MIN_RELEVANCE_SCORE \<le> relevance (justification_words_of j) r) current)"
    using assms auto_map_string[OF False, of j] unfolding j by simp
  then show ?thesis using set_take_subset[of AUTO_MAP_FALLBACK_SOURCES current] by auto
qed

text \<open>
  The sources of a parsed verdict are the valid sources of the response, or, when the
  response has none, sources built from items of the evidence buffer.
\<close>

lemma parse_sources:
  assumes "parse_veracity_response loads current response_text = Inr v"
  shows "(response_sources loads response_text \<noteq> []
            \<and> verdict_sources v = response_sources loads response_text)
         \<or> (response_sources loads response_text = []
            \<and> set (verdict_sources v) \<subseteq> source_of_result ` set current)"
proof -
  obtain st jv mv srcs where v: "v = (st, jv, mv, srcs)" by (cases v) auto
  have vs: "verdict_sources v = srcs" by (simp add: v verdict_sources_def)
  note parsed = assms[unfolded v parse_veracity_response_def]
  show ?thesis
  proof (cases "decode_layers loads response_text")
    case (Inl err)
    then show ?thesis using parsed by simp
  next
    case (Inr r)
    show ?thesis
    proof (cases r)
      case None
      then have "srcs = []" using parsed Inr by (simp add: parse_failure_def)
      moreover have "response_sources loads response_text = []"
        using Inr None by (simp add: response_sources_def)
      ultimately show ?thesis using vs by simp
    next
      case (Some data)
      show ?thesis
      proof (cases "\<exists>d. data = JObject d")
        case False
        then have "process_parsed_data current data = Inl AttributeError"
          by (cases data) (simp_all add: process_parsed_data_def)
        then have "srcs = []" using parsed Inr Some by (simp add: processing_failure_def)
        moreover have "response_sources loads response_text = []"
          using False Inr Some by (cases data) (simp_all add: response_sources_def)
        ultimately show ?thesis using vs by simp
      next
        case True
        then obtain d where d: "data = JObject d" by blast
        let ?reported = "reported_sources (py_get d ''sources'' (JArray []))"
        let ?j = "py_get d ''justification'' (JString ''No analysis available'')"
        have rs: "response_sources loads response_text = ?reported"
          using Inr Some d by (simp add: response_sources_def)
        show ?thesis
        proof (cases "?reported = [] \<and> current \<noteq> []")
          case False
          then have "process_parsed_data current data =
              Inr (checked_status (py_get d ''status'' (JString ''Unverifiable'')), ?j,
                   py_get d ''verification_method'' (JString ''Web search''), ?reported)"
            unfolding d by (auto simp: process_parsed_data_def Let_def)
          then have "srcs = ?reported" using parsed Inr Some by simp
          then show ?thesis using rs vs by auto
        next
          case True
          show ?thesis
          proof (cases "auto_map_sources_from_results current ?j")
            case (Inl err)
            then have "process_parsed_data current data = Inl err"
              unfolding d using True by (simp add: process_parsed_data_def Let_def)
            then have "srcs = []"
              using parsed \<open>decode_layers loads response_text = Inr r\<close> Some
              by (simp add: processing_failure_def)
            then show ?thesis using rs True vs by simp
          next
            case (Inr mapped)
            then have "process_parsed_data current data =
              Inr (checked_status (py_get d ''status'' (JString ''Unverifiable'')), ?j,
                   py_get d ''verification_method'' (JString ''Web search''), mapped)"
              unfolding d using True by (simp add: process_parsed_data_def Let_def)
            then have "srcs = mapped"
              using parsed \<open>decode_layers loads response_text = Inr r\<close> Some by simp
            then show ?thesis using rs True vs auto_map_subset[OF Inr] by simp
          qed
        qed
      qed
    qed
  qed
qed

text \<open>The sources of the verdict of a call: none, or those of a parsed response.\<close>

lemma analyze_veracity_sources:
  "verdict_sources (fst (analyze_veracity e self claim language)) = []
   \<or> (\<exists>response v.
        request_model e claim language
          (fst (build_search_context self
                  (perform_web_searches (env_search e) self claim language) language))
          = Inr response
        \<and> parse_veracity_response (env_loads e)
            (perform_web_searches (env_search e) self claim language) response = Inr v
        \<and> verdict_sources (fst (analyze_veracity e self claim language)) = verdict_sources v)"
proof (cases "enabled self")
  case False
  then show ?thesis
    by (simp add: analyze_veracity_def default_verdict_eq verdict_sources_def)
next
  case True
  show ?thesis
    unfolding analyze_veracity_enabled[OF True]
    by (auto simp: Let_def default_verdict_eq verdict_sources_def split: sum.splits)
qed

text \<open>
  Claim C1, amended: for every verification call, every Source in the returned sources
  list is built from an evidence item gathered for that call (its title, its url and the
  first 200 characters of its snippet) or is a valid source that the model's response
  itself reports; the reported sources are not compared with the evidence. When the
  response reports no valid source, every returned Source has the url of a gathered
  evidence item, and with zero evidence gathered the returned list is empty.
\<close>

theorem returned_sources_origin:
  "(\<forall>src \<in> set (verdict_sources (fst (analyze_veracity e self claim language))).
      (\<exists>r \<in> set (perform_web_searches (env_search e) self claim language).
          src = source_of_result r)
      \<or> (\<exists>response.
            request_model e claim language
              (fst (build_search_context self
                      (perform_web_searches (env_search e) self claim language) language))
              = Inr response
            \<and> src \<in> set (response_sources (env_loads e) response)))
   \<and> ((\<forall>response.
          request_model e claim language
            (fst (build_search_context self
                    (perform_web_searches (env_search e) self claim language) language))
            = Inr response
          \<longrightarrow> response_sources (env_loads e) response = [])
       \<longrightarrow> (\<forall>src \<in> set (verdict_sources (fst (analyze_veracity e self claim language))).
              \<exists>r \<in> set (perform_web_searches (env_search e) self claim language).
                 src_url src = JString (ev_url r))
           \<and> (perform_web_searches (env_search e) self claim language = []
                \<longrightarrow> verdict_sources (fst (analyze_veracity e self claim language)) = []))"
proof -
  let ?ev = "perform_web_searches (env_search e) self claim language"
  let ?ctx = "fst (build_search_context self ?ev language)"
  let ?srcs = "verdict_sources (fst (analyze_veracity e self claim language))"
  have url: "\<And>r. src_url (source_of_result r) = JString (ev_url r)"
    by (simp add: source_of_result_def)
  from analyze_veracity_sources[of e self claim language]
  consider (none) "?srcs = []"
    | (parsed) response v where "request_model e claim language ?ctx = Inr response"
        and "parse_veracity_response (env_loads e) ?ev response = Inr v"
        and "?srcs = verdict_sources v"
    by blast
  then show ?thesis
  proof cases
    case none
    then show ?thesis by simp
  next
    case parsed
    from parse_sources[OF parsed(2)]
    consider (reported) "verdict_sources v = response_sources (env_loads e) response"
        and "response_sources (env_loads e) response \<noteq> []"
      | (mapped) "response_sources (env_loads e) response = []"
        and "set (verdict_sources v) \<subseteq> source_of_result ` set ?ev"
      by blast
    then show ?thesis
    proof cases
      case reported
      then show ?thesis using parsed(1,3) by auto
    next
      case mapped
      then have "\<forall>src \<in> set ?srcs. \<exists>r \<in> set ?ev. src = source_of_result r"
        using parsed(3) by auto
      then show ?thesis using url by fastforce
    qed
  qed
qed

theorem returned_sources_origin_witness:
  "perform_web_searches (env_search (sample_env [sample_wall] (Inr response_without_sources)))
      (sample_service True) berlin_claim ''en'' = [sample_wall]
   \<and> response_sources json_loads response_without_sources = []
   \<and> verdict_sources (fst (analyze_veracity (sample_env [sample_wall] (Inr response_without_sources))
        (sample_service True) berlin_claim ''en'')) = [source_of_result sample_wall]
   \<and> (\<exists>r \<in> set (perform_web_searches
                   (env_search (sample_env [sample_wall] (Inr response_without_sources)))
                   (sample_service True) berlin_claim ''en'').
         src_url (hd (verdict_sources
            (fst (analyze_veracity (sample_env [sample_wall] (Inr response_without_sources))
               (sample_service True) berlin_claim ''en''))))
         = JString (ev_url r))"
proof -
  let ?e = "sample_env [sample_wall] (Inr response_without_sources)"
  let ?ev = "perform_web_searches (env_search ?e) (sample_service True) berlin_claim ''en''"
  let ?srcs = "verdict_sources (fst (analyze_veracity ?e (sample_service True) berlin_claim ''en''))"
  have ev: "?ev = [sample_wall]" by code_simp
  have rs: "response_sources json_loads response_without_sources = []" by code_simp
  have srcs: "?srcs = [source_of_result sample_wall]" by code_simp
  have rq: "\<And>ctx response. request_model ?e berlin_claim ''en'' ctx = Inr response
              \<Longrightarrow> response = response_without_sources"
    by (simp add: request_model_def sample_env_def)
  have loads: "env_loads ?e = json_loads" by (simp add: sample_env_def)
  have hyp: "\<forall>response.
          request_model ?e berlin_claim ''en''
            (fst (build_search_context (sample_service True) ?ev ''en'')) = Inr response
          \<longrightarrow> response_sources (env_loads ?e) response = []"
    using rq rs loads by auto
  from returned_sources_origin[of ?e "sample_service True" berlin_claim "''en''"] hyp
  have "\<forall>src \<in> set ?srcs. \<exists>r \<in> set ?ev. src_url src = JString (ev_url r)" by blast
  then have "\<exists>r \<in> set ?ev. src_url (hd ?srcs) = JString (ev_url r)"
    unfolding srcs by simp
  with ev rs srcs show ?thesis by blast
qed

theorem fabricated_source_counterexample:
  "perform_web_searches (env_search (sample_env [] (Inr response_with_source)))
      (sample_service False) berlin_claim ''en'' = []
   \<and> verdict_sources (fst (analyze_veracity (sample_env [] (Inr response_with_source))
        (sample_service False) berlin_claim ''en''))
     = [\<lparr>src_title = JString [], src_url = JString ''https://invented.example/a'',
         src_snippet = JString []\<rparr>]"
  by code_simp

section \<open>The repair of an unescaped quote\<close>

text \<open>
  Claim C3 says that the parser repairs the unescaped quotation marks in
  \<open>{"status":"Untruth","justification":"He said "no" publicly",...}\<close> and returns a
  justification that contains the word \<open>no\<close>. The parser does not raise, but the repair
  leaves the text as it is: a quote inside a string is escaped only when a colon stands
  among the four characters before it or a comma begins them, and the quote before
  \<open>no\<close> follows the word \<open>said\<close>. All three decodings fail, and the justification of
  the verdict is the fixed text of the failure, which does not contain \<open>no\<close>.
\<close>

theorem unescaped_quote_not_repaired:
  "repair_json_strings response_unescaped_quote = response_unescaped_quote
   \<and> (\<forall>current. parse_veracity_response json_loads current response_unescaped_quote
         = Inr (''Unverifiable'', JString ''Invalid JSON response from analysis'',
                JString ''Parse error'', []))
   \<and> \<not> py_in ''no'' ''Invalid JSON response from analysis''"
proof -
  have same: "repair_json_strings response_unescaped_quote = response_unescaped_quote"
    by code_simp
  have "decode_layers json_loads response_unescaped_quote = Inr None" by code_simp
  then have fails: "\<forall>current. parse_veracity_response json_loads current response_unescaped_quote
         = Inr (''Unverifiable'', JString ''Invalid JSON response from analysis'',
                JString ''Parse error'', [])"
    by (simp add: parse_veracity_response_def parse_failure_def)
  have absent: "\<not> py_in ''no'' ''Invalid JSON response from analysis''" by code_simp
  from same fails absent show ?thesis by blast
qed

end
